theory Spec2Isabelle
  imports Main "HOL-Library.AList"
begin

section \<open>JavaScript values\<close>

text \<open>
  The middleware of \<^verbatim>\<open>index.js\<close> is dynamically typed: its options object may hold
  anything, and the validation code asks for truthiness and \<^verbatim>\<open>typeof\<close>. Values are a
  datatype. A number is an integer-valued double or \<^verbatim>\<open>NaN\<close> (fractions and infinities
  are outside this development).
\<close>

datatype jsnum = NaN | Fin int

record request =
  ip :: string
  http_method :: string
  url :: string

text \<open>
  A regular expression without the \<^verbatim>\<open>g\<close> flag is represented by its source text and
  by what \<^verbatim>\<open>exec\<close> finds in a subject: the start and the length of the leftmost match.
\<close>

datatype regex = Regex (pattern: string) (exec: "string \<Rightarrow> (nat \<times> nat) option")

datatype jsval =
    Undefined
  | Null
  | Bool bool
  | Num jsnum
  | Str string
  | RegExp regex
  | KeyFn "request \<Rightarrow> string"
  | MsgFn "jsnum \<Rightarrow> jsval"
  | Obj "(string \<times> jsval) list"

type_synonym obj = "(string \<times> jsval) list"

datatype js_error = Error string | TypeError string

fun truthy :: "jsval \<Rightarrow> bool" where
  "truthy Undefined = False"
| "truthy Null = False"
| "truthy (Bool b) = b"
| "truthy (Num NaN) = False"
| "truthy (Num (Fin n)) = (n \<noteq> 0)"
| "truthy (Str s) = (s \<noteq> [])"
| "truthy (RegExp r) = True"
| "truthy (KeyFn f) = True"
| "truthy (MsgFn f) = True"
| "truthy (Obj fs) = True"

fun typeof :: "jsval \<Rightarrow> string" where
  "typeof Undefined = ''undefined''"
| "typeof Null = ''object''"
| "typeof (Bool b) = ''boolean''"
| "typeof (Num n) = ''number''"
| "typeof (Str s) = ''string''"
| "typeof (RegExp r) = ''object''"
| "typeof (KeyFn f) = ''function''"
| "typeof (MsgFn f) = ''function''"
| "typeof (Obj fs) = ''object''"

text \<open>
  \<^verbatim>\<open>ToNumber\<close>. The numeric options reach arithmetic only after construction, which
  lets a truthy value through only when it is a positive number (lemma
  \<open>constructed_numeric\<close> below); a non-empty string never gets here, and its numeric
  reading is not modelled.
\<close>

fun to_number :: "jsval \<Rightarrow> jsnum" where
  "to_number Undefined = NaN"
| "to_number Null = Fin 0"
| "to_number (Bool b) = Fin (if b then 1 else 0)"
| "to_number (Num n) = n"
| "to_number (Str s) = (if s = [] then Fin 0 else NaN)"
| "to_number (RegExp r) = NaN"
| "to_number (KeyFn f) = NaN"
| "to_number (MsgFn f) = NaN"
| "to_number (Obj fs) = NaN"

fun js_add :: "jsnum \<Rightarrow> jsnum \<Rightarrow> jsnum" where
  "js_add (Fin a) (Fin b) = Fin (a + b)"
| "js_add _ _ = NaN"

fun js_sub :: "jsnum \<Rightarrow> jsnum \<Rightarrow> jsnum" where
  "js_sub (Fin a) (Fin b) = Fin (a - b)"
| "js_sub _ _ = NaN"

fun js_mul :: "jsnum \<Rightarrow> jsnum \<Rightarrow> jsnum" where
  "js_mul (Fin a) (Fin b) = Fin (a * b)"
| "js_mul _ _ = NaN"

text \<open>Comparisons with \<^verbatim>\<open>NaN\<close> are false.\<close>

fun js_gt :: "jsnum \<Rightarrow> jsnum \<Rightarrow> bool" where
  "js_gt (Fin a) (Fin b) = (a > b)"
| "js_gt _ _ = False"

fun js_lt :: "jsnum \<Rightarrow> jsnum \<Rightarrow> bool" where
  "js_lt (Fin a) (Fin b) = (a < b)"
| "js_lt _ _ = False"

text \<open>Property read: a missing property reads as \<^verbatim>\<open>undefined\<close>.\<close>

definition get_prop :: "obj \<Rightarrow> string \<Rightarrow> jsval" where
  "get_prop fs k = (case map_of fs k of None \<Rightarrow> Undefined | Some v \<Rightarrow> v)"

text \<open>
  The own properties of a value. Only plain objects carry the option names; a regular
  expression passed as options has none of them.
\<close>

fun props :: "jsval \<Rightarrow> obj" where
  "props (Obj fs) = fs"
| "props _ = []"

text \<open>
  \<^verbatim>\<open>defaults(object, source)\<close> of lodash 3: every property of the source is assigned
  to the object where the object's property resolves to \<^verbatim>\<open>undefined\<close>.
\<close>

definition assign_default :: "obj \<Rightarrow> string \<times> jsval \<Rightarrow> obj" where
  "assign_default object kv =
     (case get_prop object (fst kv) of
        Undefined \<Rightarrow> AList.update (fst kv) (snd kv) object
      | _ \<Rightarrow> object)"

definition defaults :: "obj \<Rightarrow> obj \<Rightarrow> obj" where
  "defaults object source = foldl assign_default object source"

section \<open>Decimal text, \<^verbatim>\<open>pluralize\<close> and \<^verbatim>\<open>secondsHuman\<close>\<close>

definition digit_char :: "nat \<Rightarrow> char" where
  "digit_char d = char_of (48 + d)"

fun show_nat :: "nat \<Rightarrow> string" where
  "show_nat n = (if n < 10 then [digit_char n] else show_nat (n div 10) @ [digit_char (n mod 10)])"

declare show_nat.simps [simp del]

definition show_int :: "int \<Rightarrow> string" where
  "show_int i = (if i < 0 then CHR ''-'' # show_nat (nat (- i)) else show_nat (nat i))"

fun show_num :: "jsnum \<Rightarrow> string" where
  "show_num NaN = ''NaN''"
| "show_num (Fin i) = show_int i"

text \<open>
  \<^verbatim>\<open>pluralize(word, count, true)\<close> of the \<^verbatim>\<open>pluralize\<close> package, for a regular noun:
  the count, a space, and the word in the singular for a count of one.
\<close>

definition pluralize :: "string \<Rightarrow> jsnum \<Rightarrow> string" where
  "pluralize word count = show_num count @ '' '' @ (if count = Fin 1 then word else word @ ''s'')"

text \<open>\<^verbatim>\<open>Math.ceil(ms / 1000)\<close> on an integer.\<close>

fun ceil_div_1000 :: "jsnum \<Rightarrow> jsnum" where
  "ceil_div_1000 NaN = NaN"
| "ceil_div_1000 (Fin ms) = Fin (- ((- ms) div 1000))"

definition secondsHuman :: "jsnum \<Rightarrow> string" where
  "secondsHuman ms = pluralize ''second'' (ceil_div_1000 ms)"

section \<open>Construction: defaults and validation\<close>

text \<open>The default matcher \<^verbatim>\<open>/[a-z0-9]{24}$/\<close>: the last 24 characters, when each is a
  lower-case letter or a digit. The \<^verbatim>\<open>$\<close> pins the match to the end of the subject, so
  there is one candidate.\<close>

definition lower_alnum :: "char \<Rightarrow> bool" where
  "lower_alnum c = (let n = (of_char c :: nat) in (97 \<le> n \<and> n \<le> 122) \<or> (48 \<le> n \<and> n \<le> 57))"

definition mongo_id_exec :: "string \<Rightarrow> (nat \<times> nat) option" where
  "mongo_id_exec s =
     (if 24 \<le> length s \<and> list_all lower_alnum (drop (length s - 24) s)
      then Some (length s - 24, 24) else None)"

definition default_createKey :: "request \<Rightarrow> string" where
  "default_createKey req = ''RL/'' @ ip req @ ''/'' @ http_method req @ url req"

definition default_rateLimitMessage :: "jsnum \<Rightarrow> jsval" where
  "default_rateLimitMessage ttl =
     Obj [(''error'', Obj [
       (''message'', Str (''Rate limit reached. Try again in '' @ secondsHuman ttl @ ''.'')),
       (''timeout'', Num ttl),
       (''type'', Str ''RATE_LIMIT'')])]"

definition default_internalErrorMessage :: jsval where
  "default_internalErrorMessage =
     Obj [(''error'', Obj [
       (''message'', Str ''Internal server error.''),
       (''type'', Str ''INTERNAL_SERVER_ERROR'')])]"

definition defaultOptions :: obj where
  "defaultOptions =
     [(''requestLimit'', Num (Fin 60)),
      (''timeWindow'', Num (Fin 60)),
      (''idMatcher'', RegExp (Regex ''[a-z0-9]{24}$'' mongo_id_exec)),
      (''idValue'', Str '':id''),
      (''createKey'', KeyFn default_createKey),
      (''rateLimitMessage'', MsgFn default_rateLimitMessage),
      (''internalErrorMessage'', default_internalErrorMessage)]"

text \<open>\<^verbatim>\<open>typeof x === 'number' && x > 0\<close>.\<close>

definition positive_number :: "jsval \<Rightarrow> bool" where
  "positive_number v = (typeof v = ''number'' \<and> js_gt (to_number v) (Fin 0))"

text \<open>\<^verbatim>\<open>validateOptions\<close>: the checks in the order of the source; a \<^verbatim>\<open>throw\<close> is \<open>Inl\<close>.\<close>

definition validateOptions :: "jsval \<Rightarrow> js_error + obj" where
  "validateOptions options =
     (if \<not> truthy options then Inr []
      else if typeof options \<noteq> ''object'' then Inl (Error ''Options must be an object.'')
      else let opts = props options in
        if truthy (get_prop opts ''requestLimit'') \<and> \<not> positive_number (get_prop opts ''requestLimit'')
          then Inl (Error ''Request limit option must be a positive number.'')
        else if truthy (get_prop opts ''timeWindow'') \<and> \<not> positive_number (get_prop opts ''timeWindow'')
          then Inl (Error ''Time window option must be a positive number.'')
        else if truthy (get_prop opts ''idMatcher'') \<and> typeof (get_prop opts ''idMatcher'') \<noteq> ''object''
          then Inl (Error ''ID matcher option must be a regular expression.'')
        else if truthy (get_prop opts ''idMatcher'') \<and> truthy (get_prop opts ''idValue'')
                \<and> typeof (get_prop opts ''idValue'') \<noteq> ''string''
          then Inl (Error ''ID value option must be a string.'')
        else if truthy (get_prop opts ''createKey'') \<and> typeof (get_prop opts ''createKey'') \<noteq> ''function''
          then Inl (Error ''Create key option must be a function.'')
        else if truthy (get_prop opts ''rateLimitMessage'')
                \<and> \<not> (typeof (get_prop opts ''rateLimitMessage'') = ''function''
                      \<or> typeof (get_prop opts ''rateLimitMessage'') = ''object'')
          then Inl (Error ''Rate limit message option must be a function or an object.'')
        else if truthy (get_prop opts ''internalErrorMessage'')
                \<and> typeof (get_prop opts ''internalErrorMessage'') \<noteq> ''object''
          then Inl (Error ''Internal error message option must be an object.'')
        else Inr opts)"

text \<open>
  \<^verbatim>\<open>ExpressRedisRateLimit(cache, options)\<close>: the options the returned middleware closes
  over, or the error thrown at construction. The cache handle is the store of the
  request model below.
\<close>

definition ExpressRedisRateLimit :: "jsval \<Rightarrow> js_error + obj" where
  "ExpressRedisRateLimit options =
     (case validateOptions options of
        Inl e \<Rightarrow> Inl e
      | Inr valid \<Rightarrow> Inr (defaults valid defaultOptions))"

section \<open>Key derivation\<close>

text \<open>
  The replacement text of \<^verbatim>\<open>String.prototype.replace\<close>: \<^verbatim>\<open>$$\<close> is a dollar sign,
  \<^verbatim>\<open>$&\<close> the matched text, \<^verbatim>\<open>$`\<close> the text before the match and \<^verbatim>\<open>$'\<close> the text
  after it. The matchers here have no capture groups, so \<^verbatim>\<open>$1\<close> stays as written.
\<close>

fun expand :: "string \<Rightarrow> string \<Rightarrow> string \<Rightarrow> string \<Rightarrow> string" where
  "expand pre m post (c # d # cs) =
     (if c = CHR ''$'' \<and> d = CHR ''$'' then CHR ''$'' # expand pre m post cs
      else if c = CHR ''$'' \<and> d = CHR ''&'' then m @ expand pre m post cs
      else if c = CHR ''$'' \<and> d = CHR 0x60 then pre @ expand pre m post cs
      else if c = CHR ''$'' \<and> d = CHR 0x27 then post @ expand pre m post cs
      else c # expand pre m post (d # cs))"
| "expand pre m post cs = cs"

text \<open>The subject with the \<open>n\<close> characters at \<open>i\<close> replaced.\<close>

definition splice :: "string \<Rightarrow> nat \<Rightarrow> nat \<Rightarrow> string \<Rightarrow> string" where
  "splice s i n repl =
     take i s @ expand (take i s) (take n (drop i s)) (drop (i + n) s) repl @ drop (i + n) s"

text \<open>The index of the first occurrence of a text in a subject.\<close>

fun find_sub :: "string \<Rightarrow> string \<Rightarrow> nat option" where
  "find_sub pat [] = (if pat = [] then Some 0 else None)"
| "find_sub pat (c # cs) =
     (if take (length pat) (c # cs) = pat then Some 0 else map_option Suc (find_sub pat cs))"

text \<open>
  \<^verbatim>\<open>ToString\<close> of a value that is not a function. (The source text of a function is
  not represented; \<open>js_replace\<close> below never asks for it.)
\<close>

fun to_string :: "jsval \<Rightarrow> string" where
  "to_string Undefined = ''undefined''"
| "to_string Null = ''null''"
| "to_string (Bool b) = (if b then ''true'' else ''false'')"
| "to_string (Num n) = show_num n"
| "to_string (Str s) = s"
| "to_string (RegExp r) = ''/'' @ pattern r @ ''/''"
| "to_string (KeyFn f) = []"
| "to_string (MsgFn f) = []"
| "to_string (Obj fs) = ''[object Object]''"

text \<open>
  \<^verbatim>\<open>key.replace(pattern, replacement)\<close>. A regular expression replaces its leftmost
  match; any other pattern is turned into text, whose first occurrence is replaced. The
  replacement is turned into text as well. A function as replacement is a replacer, called
  with the match; functions are represented here by the two signatures the options
  document, so that call has no model and the key is left as it is (the theorems on
  \<open>replaceID\<close> below take a string as \<^verbatim>\<open>idValue\<close>).
\<close>

fun js_replace :: "string \<Rightarrow> jsval \<Rightarrow> jsval \<Rightarrow> string" where
  "js_replace s pat (KeyFn f) = s"
| "js_replace s pat (MsgFn f) = s"
| "js_replace s (RegExp r) v =
     (case exec r s of None \<Rightarrow> s | Some (i, n) \<Rightarrow> splice s i n (to_string v))"
| "js_replace s pat v =
     (case find_sub (to_string pat) s of
        None \<Rightarrow> s
      | Some i \<Rightarrow> splice s i (length (to_string pat)) (to_string v))"

definition replaceID :: "obj \<Rightarrow> string \<Rightarrow> string" where
  "replaceID options key =
     (if truthy (get_prop options ''idMatcher'') \<and> truthy (get_prop options ''idValue'')
      then js_replace key (get_prop options ''idMatcher'') (get_prop options ''idValue'')
      else key)"

section \<open>The store\<close>

text \<open>
  The redis client, as far as the middleware uses it: a counter per key with an optional
  time to live in milliseconds. The counter is only ever written by \<^verbatim>\<open>INCR\<close>, so its
  value is an integer, and \<^verbatim>\<open>parseInt\<close> of the reply to \<^verbatim>\<open>GET\<close> (the decimal text of the
  counter) is that integer: replies carry the integer they denote.
\<close>

record entry =
  val :: int
  expiry :: "int option"

type_synonym store = "string \<rightharpoonup> entry"

datatype command = EXISTS | GET | PTTL | INCR | PEXPIRE

datatype reply = RUndefined | RNil | RInt int

datatype cache_error = CacheError command

fun parseInt :: "reply \<Rightarrow> jsnum" where
  "parseInt (RInt n) = Fin n"
| "parseInt _ = NaN"

text \<open>
  What one request sees and changes: the store, the commands sent to it so far, the
  response (headers, status and body) and how often the continuation \<^verbatim>\<open>done\<close> was called.
  \<open>fired\<close> is the flag of \<^verbatim>\<open>async.waterfall\<close>'s final callback.
\<close>

record world =
  cache :: store
  issued :: "command list"
  headers :: "string \<rightharpoonup> jsval"
  status :: "nat option"
  body :: "jsval option"
  passed :: nat
  fired :: bool

definition fresh :: "store \<Rightarrow> world" where
  "fresh c = \<lparr>cache = c, issued = [], headers = Map.empty, status = None, body = None,
              passed = 0, fired = False\<rparr>"

text \<open>
  The five commands, in continuation-passing style as the client offers them:
  \<^verbatim>\<open>cache.exists(key, function(error, reply) {...})\<close>. \<open>fl\<close> says which commands the
  store fails during this request; a failed command changes nothing and its reply is
  \<^verbatim>\<open>undefined\<close>.
\<close>

type_synonym 'a cont = "'a \<Rightarrow> world \<Rightarrow> world"

definition send :: "command \<Rightarrow> world \<Rightarrow> world" where
  "send c w = w\<lparr>issued := issued w @ [c]\<rparr>"

definition cache_exists ::
  "(command \<Rightarrow> bool) \<Rightarrow> string \<Rightarrow> (cache_error option \<Rightarrow> reply cont) \<Rightarrow> world \<Rightarrow> world" where
  "cache_exists fl key cb w =
     (if fl EXISTS then cb (Some (CacheError EXISTS)) RUndefined (send EXISTS w)
      else cb None (RInt (if cache w key = None then 0 else 1)) (send EXISTS w))"

definition cache_get ::
  "(command \<Rightarrow> bool) \<Rightarrow> string \<Rightarrow> (cache_error option \<Rightarrow> reply cont) \<Rightarrow> world \<Rightarrow> world" where
  "cache_get fl key cb w =
     (if fl GET then cb (Some (CacheError GET)) RUndefined (send GET w)
      else cb None (case cache w key of None \<Rightarrow> RNil | Some e \<Rightarrow> RInt (val e)) (send GET w))"

text \<open>\<^verbatim>\<open>PTTL\<close> answers -2 for a missing key and -1 for a key that never expires.\<close>

definition cache_pttl ::
  "(command \<Rightarrow> bool) \<Rightarrow> string \<Rightarrow> (cache_error option \<Rightarrow> reply cont) \<Rightarrow> world \<Rightarrow> world" where
  "cache_pttl fl key cb w =
     (if fl PTTL then cb (Some (CacheError PTTL)) RUndefined (send PTTL w)
      else cb None
        (case cache w key of
           None \<Rightarrow> RInt (- 2)
         | Some e \<Rightarrow> (case expiry e of None \<Rightarrow> RInt (- 1) | Some t \<Rightarrow> RInt t))
        (send PTTL w))"

text \<open>\<^verbatim>\<open>INCR\<close> creates a missing key at 1, with no expiry, and keeps the expiry of a key
  it finds.\<close>

definition cache_incr ::
  "(command \<Rightarrow> bool) \<Rightarrow> string \<Rightarrow> (cache_error option \<Rightarrow> reply cont) \<Rightarrow> world \<Rightarrow> world" where
  "cache_incr fl key cb w =
     (if fl INCR then cb (Some (CacheError INCR)) RUndefined (send INCR w)
      else let e = (case cache w key of
                      None \<Rightarrow> \<lparr>val = 1, expiry = None\<rparr>
                    | Some e \<Rightarrow> e\<lparr>val := val e + 1\<rparr>)
           in cb None (RInt (val e)) (send INCR (w\<lparr>cache := (cache w)(key \<mapsto> e)\<rparr>)))"

text \<open>\<^verbatim>\<open>PEXPIRE\<close> refuses a time that is not an integer, deletes the key for a time that
  is not positive, and answers 0 for a missing key.\<close>

definition cache_pexpire ::
  "(command \<Rightarrow> bool) \<Rightarrow> string \<Rightarrow> jsnum \<Rightarrow> (cache_error option \<Rightarrow> reply cont) \<Rightarrow> world \<Rightarrow> world" where
  "cache_pexpire fl key ttl cb w =
     (case ttl of
        NaN \<Rightarrow> cb (Some (CacheError PEXPIRE)) RUndefined (send PEXPIRE w)
      | Fin ms \<Rightarrow>
          if fl PEXPIRE then cb (Some (CacheError PEXPIRE)) RUndefined (send PEXPIRE w)
          else (case cache w key of
                  None \<Rightarrow> cb None (RInt 0) (send PEXPIRE w)
                | Some e \<Rightarrow>
                    if ms \<le> 0
                    then cb None (RInt 1) (send PEXPIRE (w\<lparr>cache := (cache w)(key := None)\<rparr>))
                    else cb None (RInt 1)
                      (send PEXPIRE (w\<lparr>cache := (cache w)(key \<mapsto> e\<lparr>expiry := Some ms\<rparr>)\<rparr>))))"

text \<open>Time passing: \<open>d\<close> milliseconds later every expiry is \<open>d\<close> shorter, and a key whose
  time has run out is gone.\<close>

definition advance :: "nat \<Rightarrow> store \<Rightarrow> store" where
  "advance d c = (\<lambda>k.
     case c k of
       None \<Rightarrow> None
     | Some e \<Rightarrow>
         (case expiry e of
            None \<Rightarrow> Some e
          | Some t \<Rightarrow> if t \<le> int d then None else Some (e\<lparr>expiry := Some (t - int d)\<rparr>)))"

section \<open>The middleware\<close>

text \<open>
  Each task of the waterfall receives the callback \<^verbatim>\<open>next\<close>, called with an error
  (\<open>Inl\<close>) or with the values for the next task (\<open>Inr\<close>). The tasks are written as in the
  source: \<^verbatim>\<open>if (error) next(error);\<close> is followed, with no \<^verbatim>\<open>return\<close>, by the call
  \<^verbatim>\<open>next(null, ...)\<close>, so that on an error \<^verbatim>\<open>next\<close> is called twice.
\<close>

definition if_error :: "cache_error option \<Rightarrow> (cache_error + 'a) cont \<Rightarrow> world \<Rightarrow> world" where
  "if_error error next w = (case error of Some e \<Rightarrow> next (Inl e) w | None \<Rightarrow> w)"

definition checkRequestExists ::
  "(command \<Rightarrow> bool) \<Rightarrow> string \<Rightarrow> (cache_error + bool) cont \<Rightarrow> world \<Rightarrow> world" where
  "checkRequestExists fl key next =
     cache_exists fl key (\<lambda>error reply w.
       next (Inr (truthy (Num (parseInt reply)))) (if_error error next w))"

definition getRequestCount ::
  "(command \<Rightarrow> bool) \<Rightarrow> string \<Rightarrow> bool \<Rightarrow> (cache_error + bool \<times> jsnum) cont \<Rightarrow> world \<Rightarrow> world" where
  "getRequestCount fl key exists next =
     (if exists
      then cache_get fl key (\<lambda>error reply w.
             next (Inr (exists, js_add (parseInt reply) (Fin 1))) (if_error error next w))
      else next (Inr (exists, Fin 1)))"

definition getRequestTTL ::
  "obj \<Rightarrow> (command \<Rightarrow> bool) \<Rightarrow> string \<Rightarrow> bool \<Rightarrow> jsnum \<Rightarrow>
     (cache_error + jsnum \<times> jsnum) cont \<Rightarrow> world \<Rightarrow> world" where
  "getRequestTTL options fl key exists count next =
     (if exists
      then cache_pttl fl key (\<lambda>error reply w.
             next (Inr (count, parseInt reply)) (if_error error next w))
      else next (Inr (count, js_mul (to_number (get_prop options ''timeWindow'')) (Fin 1000))))"

text \<open>\<^verbatim>\<open>var atLimit = count > options.requestLimit;\<close>\<close>

definition atLimit_of :: "obj \<Rightarrow> jsnum \<Rightarrow> bool" where
  "atLimit_of options count = js_gt count (to_number (get_prop options ''requestLimit''))"

definition incrRequestCount ::
  "obj \<Rightarrow> (command \<Rightarrow> bool) \<Rightarrow> string \<Rightarrow> jsnum \<Rightarrow> jsnum \<Rightarrow>
     (cache_error + jsnum \<times> jsnum \<times> bool) cont \<Rightarrow> world \<Rightarrow> world" where
  "incrRequestCount options fl key count ttl next =
     (let atLimit = atLimit_of options count in
      if atLimit then next (Inr (count, ttl, atLimit))
      else cache_incr fl key (\<lambda>error reply w.
             next (Inr (count, ttl, atLimit)) (if_error error next w)))"

definition setRequestTTL ::
  "(command \<Rightarrow> bool) \<Rightarrow> string \<Rightarrow> jsnum \<Rightarrow> jsnum \<Rightarrow> bool \<Rightarrow>
     (cache_error + jsnum \<times> jsnum \<times> bool) cont \<Rightarrow> world \<Rightarrow> world" where
  "setRequestTTL fl key count ttl atLimit next =
     (if atLimit then next (Inr (count, ttl, atLimit))
      else cache_pexpire fl key ttl (\<lambda>error reply w.
             next (Inr (count, ttl, atLimit)) (if_error error next w)))"

definition requestsRemaining :: "obj \<Rightarrow> jsnum \<Rightarrow> jsnum" where
  "requestsRemaining options count =
     (let remaining = js_sub (to_number (get_prop options ''requestLimit'')) count in
      if js_lt remaining (Fin 0) then Fin 0 else remaining)"

definition setRateLimitHeaders :: "obj \<Rightarrow> jsnum \<Rightarrow> jsnum \<Rightarrow> bool \<Rightarrow> world \<Rightarrow> world" where
  "setRateLimitHeaders options count ttl atLimit w =
     w\<lparr>headers := (headers w)
          (''X-RateLimit-Limit'' \<mapsto> get_prop options ''requestLimit'',
           ''X-RateLimit-Remaining'' \<mapsto> Num (requestsRemaining options count),
           ''X-RateLimit-Window'' \<mapsto>
              Num (js_mul (to_number (get_prop options ''timeWindow'')) (Fin 1000)),
           ''X-RateLimit-Reset'' \<mapsto> Num ttl)\<rparr>"

text \<open>\<^verbatim>\<open>res.status(code).json(value)\<close> and the continuation \<^verbatim>\<open>done()\<close>.\<close>

definition respond :: "nat \<Rightarrow> jsval \<Rightarrow> world \<Rightarrow> world" where
  "respond code v w = w\<lparr>status := Some code, body := Some v\<rparr>"

definition call_done :: "world \<Rightarrow> world" where
  "call_done w = w\<lparr>passed := passed w + 1\<rparr>"

text \<open>
  The message of a rejection: the result of the message function on the time to live, or
  the static value. (A key function in this place has no call in this model.)
\<close>

fun rate_limit_body :: "jsval \<Rightarrow> jsnum \<Rightarrow> jsval" where
  "rate_limit_body (MsgFn f) ttl = f ttl"
| "rate_limit_body (KeyFn g) ttl = Undefined"
| "rate_limit_body v ttl = v"

definition rateLimitGate :: "obj \<Rightarrow> (cache_error + jsnum \<times> jsnum \<times> bool) cont" where
  "rateLimitGate options r w =
     (case r of
        Inl error \<Rightarrow> respond 500 (get_prop options ''internalErrorMessage'') w
      | Inr (count, ttl, atLimit) \<Rightarrow>
          (let w1 = setRateLimitHeaders options count ttl atLimit w in
           if atLimit
           then respond 429 (rate_limit_body (get_prop options ''rateLimitMessage'') ttl) w1
           else call_done w1))"

text \<open>
  \<^verbatim>\<open>async.waterfall(tasks, callback)\<close> as the \<^verbatim>\<open>async\<close> package of the 1.x line runs it
  (the line that goes with \<^verbatim>\<open>lodash/object/defaults\<close>): the final callback runs at most
  once; the callback handed to a task passes an error to the final callback, and
  otherwise starts the next task with the values it was given. Nothing stops a callback
  from being called again.
\<close>

definition once :: "'a cont \<Rightarrow> 'a cont" where
  "once f x w = (if fired w then w else f x (w\<lparr>fired := True\<rparr>))"

definition wrapIterator ::
  "(cache_error + 'r) cont \<Rightarrow> ('a \<Rightarrow> world \<Rightarrow> world) \<Rightarrow> (cache_error + 'a) cont" where
  "wrapIterator callback iterator r w =
     (case r of Inl err \<Rightarrow> callback (Inl err) w | Inr args \<Rightarrow> iterator args w)"

definition waterfall ::
  "((cache_error + 'a) cont \<Rightarrow> world \<Rightarrow> world) \<Rightarrow>
   ('a \<Rightarrow> (cache_error + 'b) cont \<Rightarrow> world \<Rightarrow> world) \<Rightarrow>
   ('b \<Rightarrow> (cache_error + 'c) cont \<Rightarrow> world \<Rightarrow> world) \<Rightarrow>
   ('c \<Rightarrow> (cache_error + 'd) cont \<Rightarrow> world \<Rightarrow> world) \<Rightarrow>
   ('d \<Rightarrow> (cache_error + 'd) cont \<Rightarrow> world \<Rightarrow> world) \<Rightarrow>
   (cache_error + 'd) cont \<Rightarrow> world \<Rightarrow> world" where
  "waterfall t1 t2 t3 t4 t5 callback =
     (let cb = once callback in
      t1 (wrapIterator cb (\<lambda>a1.
        t2 a1 (wrapIterator cb (\<lambda>a2.
          t3 a2 (wrapIterator cb (\<lambda>a3.
            t4 a3 (wrapIterator cb (\<lambda>a4.
              t5 a4 cb)))))))))"

text \<open>
  \<^verbatim>\<open>rateLimit(req, res, done)\<close> on a store, under the faults \<open>fl\<close>: the world after the
  request, or the \<^verbatim>\<open>TypeError\<close> of calling a \<^verbatim>\<open>createKey\<close> that is not a function (a
  message function in its place is not called either).
\<close>

definition rateLimit :: "obj \<Rightarrow> (command \<Rightarrow> bool) \<Rightarrow> request \<Rightarrow> store \<Rightarrow> js_error + world" where
  "rateLimit options fl req c =
     (case get_prop options ''createKey'' of
        KeyFn createKey \<Rightarrow>
          (let key = replaceID options (createKey req) in
           Inr (waterfall
             (checkRequestExists fl key)
             (getRequestCount fl key)
             (\<lambda>(exists, count). getRequestTTL options fl key exists count)
             (\<lambda>(count, ttl). incrRequestCount options fl key count ttl)
             (\<lambda>(count, ttl, atLimit). setRequestTTL fl key count ttl atLimit)
             (rateLimitGate options)
             (fresh c)))
      | _ \<Rightarrow> Inl (TypeError ''options.createKey is not a function''))"

text \<open>No command fails; exactly the command \<open>x\<close> fails.\<close>

definition no_fault :: "command \<Rightarrow> bool" where
  "no_fault c = False"

definition only_fault :: "command \<Rightarrow> command \<Rightarrow> bool" where
  "only_fault x c = (c = x)"

text \<open>
  A client sending the same request again and again to a store that works: each request
  comes \<open>d\<close> milliseconds after the one before it. The result is the world after each.
  The requests do not overlap, and no time passes between the commands of one request:
  requests in flight at the same time are outside this development.
\<close>

fun serve :: "obj \<Rightarrow> request \<Rightarrow> nat list \<Rightarrow> store \<Rightarrow> world list" where
  "serve options req [] c = []"
| "serve options req (d # ds) c =
     (case rateLimit options no_fault req (advance d c) of
        Inl e \<Rightarrow> []
      | Inr w \<Rightarrow> w # serve options req ds (cache w))"

section \<open>What a request shows\<close>

text \<open>
  The part of the world that the store commands leave alone: headers, status, body, the
  calls of the continuation and the flag of the final callback. \<open>leads P Q f\<close> says that
  \<open>f\<close> takes a world that shows \<open>P\<close> to one that shows \<open>Q\<close>.
\<close>

type_synonym shown = "(string \<rightharpoonup> jsval) \<times> nat option \<times> jsval option \<times> nat \<times> bool"

definition shown :: "world \<Rightarrow> shown" where
  "shown w = (headers w, status w, body w, passed w, fired w)"

definition leads :: "(shown \<Rightarrow> bool) \<Rightarrow> (shown \<Rightarrow> bool) \<Rightarrow> (world \<Rightarrow> world) \<Rightarrow> bool" where
  "leads P Q f = (\<forall>w. P (shown w) \<longrightarrow> Q (shown (f w)))"

definition rl_headers :: "string set" where
  "rl_headers =
     {''X-RateLimit-Limit'', ''X-RateLimit-Remaining'', ''X-RateLimit-Window'', ''X-RateLimit-Reset''}"

text \<open>Before the final callback: nothing set. After it: one of the three outcomes.\<close>

definition untouched :: "shown \<Rightarrow> bool" where
  "untouched s =
     (case s of (h, st, b, p, f) \<Rightarrow> h = Map.empty \<and> st = None \<and> b = None \<and> p = 0 \<and> \<not> f)"

definition answered :: "obj \<Rightarrow> shown \<Rightarrow> bool" where
  "answered options s =
     (case s of (h, st, b, p, f) \<Rightarrow> f \<and>
        ((st = Some 500 \<and> h = Map.empty \<and> p = 0
            \<and> b = Some (get_prop options ''internalErrorMessage''))
         \<or> (st = Some 429 \<and> dom h = rl_headers \<and> p = 0)
         \<or> (st = None \<and> dom h = rl_headers \<and> p = 1 \<and> b = None)))"

section \<open>Properties of construction\<close>

lemma get_prop_update:
  "get_prop (AList.update k v fs) k' = (if k' = k then v else get_prop fs k')"
  by (simp add: get_prop_def update_conv')

lemma get_prop_assign_default:
  "get_prop (assign_default fs (k, v)) k' =
     (if k' = k \<and> get_prop fs k = Undefined then v else get_prop fs k')"
  by (cases "get_prop fs k") (auto simp: assign_default_def get_prop_update)

lemma get_prop_Cons:
  "get_prop ((k, v) # fs) k' = (if k' = k then v else get_prop fs k')"
  by (simp add: get_prop_def)

lemma get_prop_absent: "k \<notin> fst ` set fs \<Longrightarrow> get_prop fs k = Undefined"
  by (simp add: get_prop_def map_of_eq_None_iff[THEN iffD2])

text \<open>What \<open>defaults\<close> leaves in a property: the object's value unless it is undefined.\<close>

lemma get_prop_defaults:
  assumes "distinct (map fst source)"
  shows "get_prop (defaults object source) k =
     (if get_prop object k = Undefined then get_prop source k else get_prop object k)"
  using assms unfolding defaults_def
proof (induction source arbitrary: object)
  case Nil
  then show ?case by (simp add: get_prop_def)
next
  case (Cons kv source)
  obtain k' v where kv: "kv = (k', v)" by (cases kv)
  from Cons.prems have d: "distinct (map fst source)" and n: "k' \<notin> fst ` set source"
    by (simp_all add: kv)
  show ?case
    using Cons.IH[OF d, of "assign_default object kv"] get_prop_absent[OF n]
    by (auto simp: kv get_prop_assign_default get_prop_Cons)
qed

lemma distinct_defaultOptions: "distinct (map fst defaultOptions)"
  by (simp add: defaultOptions_def)

lemma get_prop_constructed:
  "get_prop (defaults object defaultOptions) k =
     (if get_prop object k = Undefined then get_prop defaultOptions k else get_prop object k)"
  by (rule get_prop_defaults[OF distinct_defaultOptions])

lemma default_props:
  "get_prop defaultOptions ''requestLimit'' = Num (Fin 60)"
  "get_prop defaultOptions ''timeWindow'' = Num (Fin 60)"
  "get_prop defaultOptions ''idMatcher'' = RegExp (Regex ''[a-z0-9]{24}$'' mongo_id_exec)"
  "get_prop defaultOptions ''idValue'' = Str '':id''"
  "get_prop defaultOptions ''createKey'' = KeyFn default_createKey"
  "get_prop defaultOptions ''rateLimitMessage'' = MsgFn default_rateLimitMessage"
  "get_prop defaultOptions ''internalErrorMessage'' = default_internalErrorMessage"
  by (simp_all add: defaultOptions_def get_prop_def)

lemma defaults_empty: "defaults [] defaultOptions = defaultOptions"
  by (simp add: defaults_def defaultOptions_def assign_default_def get_prop_def)

text \<open>
  Claim C10. Construction with the options argument absent (\<^verbatim>\<open>undefined\<close> or \<^verbatim>\<open>null\<close>)
  raises nothing: validation yields the empty option set, and the options of the middleware
  are the defaults, field by field: a limit of 60 requests, a window of 60 seconds, the
  matcher \<^verbatim>\<open>/[a-z0-9]{24}$/\<close>, the value \<^verbatim>\<open>:id\<close>, and the default key function, rate limit
  message and internal error message.
\<close>

theorem construct_without_options:
  "validateOptions Undefined = Inr [] \<and> validateOptions Null = Inr [] \<and>
   ExpressRedisRateLimit Undefined = Inr defaultOptions \<and>
   ExpressRedisRateLimit Null = Inr defaultOptions \<and>
   get_prop defaultOptions ''requestLimit'' = Num (Fin 60) \<and>
   get_prop defaultOptions ''timeWindow'' = Num (Fin 60) \<and>
   get_prop defaultOptions ''idMatcher'' = RegExp (Regex ''[a-z0-9]{24}$'' mongo_id_exec) \<and>
   get_prop defaultOptions ''idValue'' = Str '':id'' \<and>
   get_prop defaultOptions ''createKey'' = KeyFn default_createKey \<and>
   get_prop defaultOptions ''rateLimitMessage'' = MsgFn default_rateLimitMessage \<and>
   get_prop defaultOptions ''internalErrorMessage'' = default_internalErrorMessage"
  by (simp add: validateOptions_def ExpressRedisRateLimit_def defaults_empty default_props)

section \<open>Properties of a request\<close>

lemmas mw_defs = rateLimit_def waterfall_def wrapIterator_def once_def fresh_def
  checkRequestExists_def getRequestCount_def getRequestTTL_def incrRequestCount_def
  setRequestTTL_def rateLimitGate_def setRateLimitHeaders_def requestsRemaining_def
  atLimit_of_def if_error_def respond_def call_done_def
  cache_exists_def cache_get_def cache_pttl_def cache_incr_def cache_pexpire_def send_def

lemma default_key_items:
  "replaceID defaultOptions
     (default_createKey \<lparr>ip = ''10.0.0.1'', http_method = ''GET'', url = ''/items''\<rparr>)
   = ''RL/10.0.0.1/GET/items''"
  by (simp add: replaceID_def default_props default_createKey_def mongo_id_exec_def
      lower_alnum_def)

text \<open>Three requests with the default options, worked out: one whose existence check
  fails, one on an empty store, one on a key that has used up its quota.\<close>

lemma fault_run:
  "rateLimit defaultOptions (only_fault EXISTS)
     \<lparr>ip = ''10.0.0.1'', http_method = ''GET'', url = ''/items''\<rparr> Map.empty =
   Inr \<lparr>cache = [''RL/10.0.0.1/GET/items'' \<mapsto> \<lparr>val = 1, expiry = Some 60000\<rparr>],
        issued = [EXISTS, INCR, PEXPIRE],
        headers = Map.empty,
        status = Some 500,
        body = Some default_internalErrorMessage,
        passed = 0,
        fired = True\<rparr>"
  by (simp add: mw_defs only_fault_def default_props default_key_items Let_def)

lemma plain_run:
  "rateLimit defaultOptions no_fault
     \<lparr>ip = ''10.0.0.1'', http_method = ''GET'', url = ''/items''\<rparr> Map.empty =
   Inr \<lparr>cache = [''RL/10.0.0.1/GET/items'' \<mapsto> \<lparr>val = 1, expiry = Some 60000\<rparr>],
        issued = [EXISTS, INCR, PEXPIRE],
        headers = [''X-RateLimit-Limit'' \<mapsto> Num (Fin 60),
                   ''X-RateLimit-Remaining'' \<mapsto> Num (Fin 59),
                   ''X-RateLimit-Window'' \<mapsto> Num (Fin 60000),
                   ''X-RateLimit-Reset'' \<mapsto> Num (Fin 60000)],
        status = None,
        body = None,
        passed = 1,
        fired = True\<rparr>"
  by (simp add: mw_defs no_fault_def default_props default_key_items Let_def)


text \<open>
  Claim C3 says that a store error aborts the sequence: no later store step, and the
  faulting request is not counted. The tasks call \<^verbatim>\<open>next(error)\<close> and then, for want of a
  \<^verbatim>\<open>return\<close>, \<^verbatim>\<open>next(null, ...)\<close>. With the default options and an empty store, a request
  whose existence check fails is answered with status 500 and the internal error message,
  and is not let through; but the waterfall goes on, \<^verbatim>\<open>INCR\<close> and \<^verbatim>\<open>PEXPIRE\<close> are sent, and
  the request is counted.
\<close>

theorem store_fault_request_is_counted:
  "rateLimit defaultOptions (only_fault EXISTS)
     \<lparr>ip = ''10.0.0.1'', http_method = ''GET'', url = ''/items''\<rparr> Map.empty =
   Inr \<lparr>cache = [''RL/10.0.0.1/GET/items'' \<mapsto> \<lparr>val = 1, expiry = Some 60000\<rparr>],
        issued = [EXISTS, INCR, PEXPIRE],
        headers = Map.empty,
        status = Some 500,
        body = Some default_internalErrorMessage,
        passed = 0,
        fired = True\<rparr>"
  by (rule fault_run)

subsection \<open>A request that meets no fault\<close>

lemma entry_update_all: "(e::entry)\<lparr>val := v, expiry := x\<rparr> = \<lparr>val = v, expiry = x\<rparr>"
  by (cases e) simp

text \<open>
  The whole effect of a request on a store that works, for numeric options: \<open>count\<close> is
  the stored count plus one (1 for a missing key), \<open>ttl\<close> what \<^verbatim>\<open>PTTL\<close> answers (a full
  window for a missing key).
\<close>

lemma rateLimit_no_fault:
  assumes k: "get_prop options ''createKey'' = KeyFn f"
    and l: "get_prop options ''requestLimit'' = Num (Fin L)"
    and t: "get_prop options ''timeWindow'' = Num (Fin T)"
    and key: "key = replaceID options (f req)"
    and cnt: "count = (case c key of None \<Rightarrow> 1 | Some e \<Rightarrow> val e + 1)"
    and ttl: "ttl = (case c key of None \<Rightarrow> T * 1000
                     | Some e \<Rightarrow> (case expiry e of None \<Rightarrow> - 1 | Some x \<Rightarrow> x))"
  shows "rateLimit options no_fault req c = Inr
     \<lparr>cache = (if count > L then c
               else if ttl \<le> 0 then c(key := None)
               else c(key \<mapsto> \<lparr>val = count, expiry = Some ttl\<rparr>)),
      issued = [EXISTS] @ (if c key = None then [] else [GET, PTTL])
               @ (if count > L then [] else [INCR, PEXPIRE]),
      headers = [''X-RateLimit-Limit'' \<mapsto> Num (Fin L),
                 ''X-RateLimit-Remaining'' \<mapsto> Num (Fin (max 0 (L - count))),
                 ''X-RateLimit-Window'' \<mapsto> Num (Fin (T * 1000)),
                 ''X-RateLimit-Reset'' \<mapsto> Num (Fin ttl)],
      status = (if count > L then Some 429 else None),
      body = (if count > L
              then Some (rate_limit_body (get_prop options ''rateLimitMessage'') (Fin ttl))
              else None),
      passed = (if count > L then 0 else 1),
      fired = True\<rparr>"
proof (cases "c key")
  case None
  then show ?thesis
    using k l t key[symmetric] cnt ttl
    by (simp add: mw_defs no_fault_def Let_def max_def)
next
  case (Some e)
  then show ?thesis
    using k l t key[symmetric] cnt ttl
    by (cases "expiry e") (simp_all add: mw_defs no_fault_def Let_def max_def entry_update_all)
qed



subsection \<open>What every request shows, faults or not\<close>

lemma leadsD: "leads P Q f \<Longrightarrow> P (shown w) \<Longrightarrow> Q (shown (f w))"
  by (simp add: leads_def)

lemma shown_send [simp]: "shown (send c w) = shown w"
  by (simp add: shown_def send_def)

lemma shown_cache_update [simp]: "shown (w\<lparr>cache := c\<rparr>) = shown w"
  by (simp add: shown_def)

lemma leads_reply:
  assumes "\<And>r. leads P Q (next r)" and "\<And>r. leads Q Q (next r)"
  shows "leads P Q (\<lambda>w. next v (if_error error next w))"
  using assms by (cases error) (auto simp: if_error_def leads_def)

lemma leads_cache_exists:
  assumes "\<And>e r. leads P Q (cb e r)"
  shows "leads P Q (cache_exists fl key cb)"
  using assms by (simp add: leads_def cache_exists_def)

lemma leads_cache_get:
  assumes "\<And>e r. leads P Q (cb e r)"
  shows "leads P Q (cache_get fl key cb)"
  using assms by (simp add: leads_def cache_get_def)

lemma leads_cache_pttl:
  assumes "\<And>e r. leads P Q (cb e r)"
  shows "leads P Q (cache_pttl fl key cb)"
  using assms by (simp add: leads_def cache_pttl_def)

lemma leads_cache_incr:
  assumes "\<And>e r. leads P Q (cb e r)"
  shows "leads P Q (cache_incr fl key cb)"
  using assms by (simp add: leads_def cache_incr_def Let_def)

lemma leads_cache_pexpire:
  assumes "\<And>e r. leads P Q (cb e r)"
  shows "leads P Q (cache_pexpire fl key ttl cb)"
  using assms by (simp add: leads_def cache_pexpire_def split: jsnum.splits option.splits)

lemma leads_checkRequestExists:
  assumes "\<And>r. leads P Q (next r)" and "\<And>r. leads Q Q (next r)"
  shows "leads P Q (checkRequestExists fl key next)"
  unfolding checkRequestExists_def
  by (rule leads_cache_exists) (rule leads_reply, rule assms, rule assms)

lemma leads_getRequestCount:
  assumes "\<And>r. leads P Q (next r)" and "\<And>r. leads Q Q (next r)"
  shows "leads P Q (getRequestCount fl key exists next)"
  unfolding getRequestCount_def
  by (cases exists) (simp_all add: assms leads_cache_get leads_reply)

lemma leads_getRequestTTL:
  assumes "\<And>r. leads P Q (next r)" and "\<And>r. leads Q Q (next r)"
  shows "leads P Q (getRequestTTL options fl key exists count next)"
  unfolding getRequestTTL_def
  by (cases exists) (simp_all add: assms leads_cache_pttl leads_reply)

lemma leads_incrRequestCount:
  assumes "\<And>r. leads P Q (next r)" and "\<And>r. leads Q Q (next r)"
  shows "leads P Q (incrRequestCount options fl key count ttl next)"
  unfolding incrRequestCount_def Let_def
  by (cases "atLimit_of options count") (simp_all add: assms leads_cache_incr leads_reply)

lemma leads_setRequestTTL:
  assumes "\<And>r. leads P Q (next r)" and "\<And>r. leads Q Q (next r)"
  shows "leads P Q (setRequestTTL fl key count ttl atLimit next)"
  unfolding setRequestTTL_def
  by (cases atLimit) (simp_all add: assms leads_cache_pexpire leads_reply)

lemma leads_wrapIterator:
  assumes "\<And>r. leads P Q (cb r)" and "\<And>a. leads P Q (iterator a)"
  shows "leads P Q (wrapIterator cb iterator r)"
  using assms by (cases r) (simp_all add: wrapIterator_def leads_def)

text \<open>The tasks of \<open>rateLimit\<close> from the second on.\<close>

lemma leads_tail:
  assumes "\<And>r. leads P Q (cb r)" and "\<And>r. leads Q Q (cb r)"
  shows "leads P Q (getRequestCount fl key a1 (wrapIterator cb (\<lambda>a2.
          (\<lambda>(exists, count). getRequestTTL options fl key exists count) a2 (wrapIterator cb (\<lambda>a3.
            (\<lambda>(count, ttl). incrRequestCount options fl key count ttl) a3 (wrapIterator cb (\<lambda>a4.
              (\<lambda>(count, ttl, atLimit). setRequestTTL fl key count ttl atLimit) a4 cb)))))))"
  by (intro leads_getRequestCount leads_wrapIterator assms)
     (auto intro!: leads_getRequestTTL leads_incrRequestCount leads_setRequestTTL leads_wrapIterator assms
        simp: split_def)

lemma leads_waterfall:
  assumes "\<And>r. leads P Q (once callback r)" and "\<And>r. leads Q Q (once callback r)"
  shows "leads P Q (waterfall
             (checkRequestExists fl key)
             (getRequestCount fl key)
             (\<lambda>(exists, count). getRequestTTL options fl key exists count)
             (\<lambda>(count, ttl). incrRequestCount options fl key count ttl)
             (\<lambda>(count, ttl, atLimit). setRequestTTL fl key count ttl atLimit)
             callback)"
  unfolding waterfall_def Let_def
  by (intro leads_checkRequestExists leads_wrapIterator leads_tail assms)

lemma dom_set_headers:
  "dom (headers (setRateLimitHeaders options count ttl atLimit w)) = dom (headers w) \<union> rl_headers"
  by (simp add: setRateLimitHeaders_def rl_headers_def insert_commute)

lemma set_headers_others:
  "status (setRateLimitHeaders options count ttl atLimit w) = status w"
  "body (setRateLimitHeaders options count ttl atLimit w) = body w"
  "passed (setRateLimitHeaders options count ttl atLimit w) = passed w"
  "fired (setRateLimitHeaders options count ttl atLimit w) = fired w"
  by (simp_all add: setRateLimitHeaders_def)

lemma gate_answers: "leads untouched (answered options) (once (rateLimitGate options) r)"
proof (cases r)
  case (Inl e)
  then show ?thesis
    by (simp add: leads_def once_def rateLimitGate_def shown_def untouched_def answered_def
        respond_def)
next
  case (Inr d)
  obtain count ttl atLimit where d: "d = (count, ttl, atLimit)"
    by (cases d) auto
  show ?thesis
    unfolding leads_def
  proof (intro allI impI)
    fix w assume u: "untouched (shown w)"
    let ?w1 = "setRateLimitHeaders options count ttl atLimit (w\<lparr>fired := True\<rparr>)"
    have nf: "\<not> fired w"
      and e: "headers w = Map.empty" "status w = None" "body w = None" "passed w = 0"
      using u by (simp_all add: untouched_def shown_def)
    have dh: "dom (headers ?w1) = rl_headers"
      by (simp add: dom_set_headers e)
    have o: "status ?w1 = None" "body ?w1 = None" "passed ?w1 = 0" "fired ?w1"
      by (simp_all add: set_headers_others e)
    have r: "once (rateLimitGate options) r w =
       (if atLimit
        then respond 429 (rate_limit_body (get_prop options ''rateLimitMessage'') ttl) ?w1
        else call_done ?w1)"
      using nf by (simp add: once_def rateLimitGate_def Inr d Let_def)
    show "answered options (shown (once (rateLimitGate options) r w))"
      unfolding r using dh o
      by (cases atLimit) (simp_all add: answered_def shown_def respond_def call_done_def)
  qed
qed

lemma gate_once: "leads (answered options) (answered options) (once (rateLimitGate options) r)"
  by (simp add: leads_def once_def shown_def answered_def)

lemma rateLimit_answered:
  assumes "rateLimit options fl req c = Inr w"
  shows "answered options (shown w)"
proof -
  have u: "untouched (shown (fresh c))"
    by (simp add: untouched_def shown_def fresh_def)
  from assms obtain f where f: "get_prop options ''createKey'' = KeyFn f"
    by (cases "get_prop options ''createKey''") (simp_all add: rateLimit_def)
  define key where "key = replaceID options (f req)"
  from assms f have "w = waterfall
             (checkRequestExists fl key)
             (getRequestCount fl key)
             (\<lambda>(exists, count). getRequestTTL options fl key exists count)
             (\<lambda>(count, ttl). incrRequestCount options fl key count ttl)
             (\<lambda>(count, ttl, atLimit). setRequestTTL fl key count ttl atLimit)
             (rateLimitGate options)
             (fresh c)"
    by (simp add: rateLimit_def Let_def key_def)
  then show ?thesis
    using leadsD[OF leads_waterfall[OF gate_answers gate_once] u] by simp
qed

lemma exists_fault_500:
  assumes fl: "fl EXISTS" and w: "rateLimit options fl req c = Inr w"
  shows "status w = Some 500"
proof -
  let ?E = "\<lambda>s. case s of (h, st, b, p, f) \<Rightarrow> st = Some 500 \<and> f"
  from w obtain f where f: "get_prop options ''createKey'' = KeyFn f"
    by (cases "get_prop options ''createKey''") (simp_all add: rateLimit_def)
  define key where "key = replaceID options (f req)"
  define cb where "cb = once (rateLimitGate options)"
  define w1 where "w1 = cb (Inl (CacheError EXISTS)) (send EXISTS (fresh c))"
  have keep: "\<And>r. leads ?E ?E (cb r)"
    by (simp add: leads_def cb_def once_def shown_def)
  have e1: "?E (shown w1)"
    by (simp add: w1_def cb_def once_def send_def fresh_def rateLimitGate_def respond_def shown_def)
  from w f fl have "w = getRequestCount fl key False (wrapIterator cb (\<lambda>a2.
          (\<lambda>(exists, count). getRequestTTL options fl key exists count) a2 (wrapIterator cb (\<lambda>a3.
            (\<lambda>(count, ttl). incrRequestCount options fl key count ttl) a3 (wrapIterator cb (\<lambda>a4.
              (\<lambda>(count, ttl, atLimit). setRequestTTL fl key count ttl atLimit) a4 cb)))))) w1"
    by (simp add: rateLimit_def waterfall_def checkRequestExists_def cache_exists_def if_error_def
        wrapIterator_def Let_def key_def cb_def w1_def)
  then have "?E (shown w)"
    using leadsD[OF leads_tail[of ?E ?E cb, OF keep keep] e1] by simp
  then show ?thesis
    by (simp add: shown_def)
qed

lemma no_fault_eq: "(\<forall>cmd. \<not> fl cmd) \<Longrightarrow> fl = no_fault"
  by (auto simp: no_fault_def)








lemma no_fault_not_500:
  assumes k: "get_prop options ''createKey'' = KeyFn f"
    and l: "get_prop options ''requestLimit'' = Num (Fin L)"
    and t: "get_prop options ''timeWindow'' = Num (Fin T)"
    and w: "rateLimit options no_fault req c = Inr w"
  shows "status w \<noteq> Some 500"
proof -
  note run = rateLimit_no_fault[where c = c and key = "replaceID options (f req)" and req = req,
      OF k l t refl refl refl]
  from w have "status w = Some 429 \<or> status w = None"
    unfolding run by (cases "L < (case c (replaceID options (f req)) of None \<Rightarrow> 1
                 | Some e \<Rightarrow> val e + 1)") auto
  then show ?thesis
    by auto
qed

text \<open>
  Claim C4 says that the four informational headers are on every response, also on that
  of a store fault. \<^verbatim>\<open>rateLimitGate\<close> returns the 500 response before it reaches
  \<^verbatim>\<open>setRateLimitHeaders\<close>: the request whose existence check fails is answered 500
  with no \<^verbatim>\<open>X-RateLimit-Limit\<close> header.
\<close>

theorem fault_response_without_headers:
  "\<not> isl (rateLimit defaultOptions (only_fault EXISTS)
       \<lparr>ip = ''10.0.0.1'', http_method = ''GET'', url = ''/items''\<rparr> Map.empty) \<and>
   status (projr (rateLimit defaultOptions (only_fault EXISTS)
       \<lparr>ip = ''10.0.0.1'', http_method = ''GET'', url = ''/items''\<rparr> Map.empty)) = Some 500 \<and>
   ''X-RateLimit-Limit'' \<notin> dom (headers (projr (rateLimit defaultOptions (only_fault EXISTS)
       \<lparr>ip = ''10.0.0.1'', http_method = ''GET'', url = ''/items''\<rparr> Map.empty)))"
  by (simp add: fault_run)

text \<open>
  Claim C4, amended. The outcome decides the headers: a response that is not a 500 is an
  allowed one (no status set) or a 429, and carries exactly the four headers; a 500
  response carries no header at all. This holds for every options object, store and set
  of faults. A request whose existence check fails is answered 500, and with numeric
  options a request that meets no fault is not.
\<close>

theorem headers_follow_outcome:
  assumes "rateLimit options fl req c = Inr w"
  shows "(status w = Some 500 \<longrightarrow> headers w = Map.empty) \<and>
         (status w \<noteq> Some 500 \<longrightarrow>
            dom (headers w) = rl_headers \<and> (status w = None \<or> status w = Some 429)) \<and>
         (fl EXISTS \<longrightarrow> status w = Some 500) \<and>
         ((\<forall>cmd. \<not> fl cmd) \<and> (\<exists>L. get_prop options ''requestLimit'' = Num (Fin L)) \<and>
          (\<exists>T. get_prop options ''timeWindow'' = Num (Fin T)) \<longrightarrow> status w \<noteq> Some 500)"
proof -
  have a: "(status w = Some 500 \<longrightarrow> headers w = Map.empty) \<and>
         (status w \<noteq> Some 500 \<longrightarrow>
            dom (headers w) = rl_headers \<and> (status w = None \<or> status w = Some 429))"
    using rateLimit_answered[OF assms] by (auto simp: answered_def shown_def)
  have b: "fl EXISTS \<longrightarrow> status w = Some 500"
    using exists_fault_500[OF _ assms] by simp
  have c: "(\<forall>cmd. \<not> fl cmd) \<and> (\<exists>L. get_prop options ''requestLimit'' = Num (Fin L)) \<and>
          (\<exists>T. get_prop options ''timeWindow'' = Num (Fin T)) \<longrightarrow> status w \<noteq> Some 500"
  proof
    assume h: "(\<forall>cmd. \<not> fl cmd) \<and> (\<exists>L. get_prop options ''requestLimit'' = Num (Fin L)) \<and>
          (\<exists>T. get_prop options ''timeWindow'' = Num (Fin T))"
    then obtain L T where l: "get_prop options ''requestLimit'' = Num (Fin L)"
      and t: "get_prop options ''timeWindow'' = Num (Fin T)"
      by blast
    from assms obtain f where k: "get_prop options ''createKey'' = KeyFn f"
      by (cases "get_prop options ''createKey''") (simp_all add: rateLimit_def)
    from h have "fl = no_fault"
      by (intro no_fault_eq) simp
    with assms have "rateLimit options no_fault req c = Inr w"
      by simp
    then show "status w \<noteq> Some 500"
      by (rule no_fault_not_500[OF k l t])
  qed
  from a b c show ?thesis
    by blast
qed

theorem headers_follow_outcome_witness:
  "headers (projr (rateLimit defaultOptions (only_fault EXISTS)
       \<lparr>ip = ''10.0.0.1'', http_method = ''GET'', url = ''/items''\<rparr> Map.empty)) = Map.empty \<and>
   dom (headers (projr (rateLimit defaultOptions no_fault
       \<lparr>ip = ''10.0.0.1'', http_method = ''GET'', url = ''/items''\<rparr> Map.empty))) = rl_headers"
  using headers_follow_outcome[OF fault_run] headers_follow_outcome[OF plain_run]
  by (simp add: fault_run plain_run)





subsection \<open>Requests in sequence\<close>

lemma advance_present:
  assumes "c key = Some \<lparr>val = v, expiry = Some x\<rparr>" and "int d < x"
  shows "advance d c key = Some \<lparr>val = v, expiry = Some (x - int d)\<rparr>"
  using assms by (simp add: advance_def)

lemma advance_absent: "c key = None \<Longrightarrow> advance d c key = None"
  by (simp add: advance_def)

text \<open>One request on a key that is there and will not expire before it is served.\<close>

lemma step_present:
  assumes k: "get_prop options ''createKey'' = KeyFn f"
    and l: "get_prop options ''requestLimit'' = Num (Fin L)"
    and t: "get_prop options ''timeWindow'' = Num (Fin T)"
    and key: "key = replaceID options (f req)"
    and e: "c key = Some \<lparr>val = v, expiry = Some x\<rparr>" and x: "0 < x"
  shows "\<exists>w. rateLimit options no_fault req c = Inr w \<and>
           status w = (if v < L then None else Some 429) \<and>
           passed w = (if v < L then 1 else 0) \<and>
           headers w ''X-RateLimit-Remaining'' = Some (Num (Fin (max 0 (L - v - 1)))) \<and>
           cache w key = Some \<lparr>val = (if v < L then v + 1 else v), expiry = Some x\<rparr>"
proof -
  have cnt: "v + 1 = (case c key of None \<Rightarrow> 1 | Some e \<Rightarrow> val e + 1)"
    by (simp add: e)
  have ttl: "x = (case c key of None \<Rightarrow> T * 1000
                     | Some e \<Rightarrow> (case expiry e of None \<Rightarrow> - 1 | Some y \<Rightarrow> y))"
    by (simp add: e)
  note run = rateLimit_no_fault[where c = c and key = key and req = req, OF k l t key cnt ttl]
  show ?thesis
    unfolding run using x e by (simp add: max_def)
qed

text \<open>One request on a missing key.\<close>

lemma step_absent:
  assumes k: "get_prop options ''createKey'' = KeyFn f"
    and l: "get_prop options ''requestLimit'' = Num (Fin L)"
    and t: "get_prop options ''timeWindow'' = Num (Fin T)"
    and key: "key = replaceID options (f req)"
    and e: "c key = None" and x: "0 < T"
  shows "\<exists>w. rateLimit options no_fault req c = Inr w \<and>
           status w = (if 0 < L then None else Some 429) \<and>
           passed w = (if 0 < L then 1 else 0) \<and>
           headers w ''X-RateLimit-Remaining'' = Some (Num (Fin (max 0 (L - 1)))) \<and>
           cache w key = (if 0 < L then Some \<lparr>val = 1, expiry = Some (T * 1000)\<rparr> else None)"
proof -
  have cnt: "1 = (case c key of None \<Rightarrow> 1 | Some e \<Rightarrow> val e + 1)"
    by (simp add: e)
  have ttl: "T * 1000 = (case c key of None \<Rightarrow> T * 1000
                     | Some e \<Rightarrow> (case expiry e of None \<Rightarrow> - 1 | Some y \<Rightarrow> y))"
    by (simp add: e)
  note run = rateLimit_no_fault[where c = c and key = key and req = req, OF k l t key cnt ttl]
  show ?thesis
    unfolding run using x e by (simp add: max_def)
qed

text \<open>Requests on a key that is there, all served before it expires.\<close>

lemma serve_present:
  assumes k: "get_prop options ''createKey'' = KeyFn f"
    and l: "get_prop options ''requestLimit'' = Num (Fin L)"
    and t: "get_prop options ''timeWindow'' = Num (Fin T)"
    and key: "key = replaceID options (f req)"
  shows "c key = Some \<lparr>val = v, expiry = Some x\<rparr> \<Longrightarrow> int (sum_list ds) < x \<Longrightarrow>
     map (\<lambda>w. (status w, passed w, headers w ''X-RateLimit-Remaining'')) (serve options req ds c) =
     map (\<lambda>i. (if v + int i < L then None else Some 429,
                if v + int i < L then 1 else 0,
                Some (Num (Fin (max 0 (L - v - int i - 1))))))
         [0..<length ds]"
proof (induction ds arbitrary: c v x)
  case Nil
  then show ?case by simp
next
  case (Cons d ds)
  from Cons.prems have dx: "int d < x" and rest: "int (sum_list ds) < x - int d"
    by simp_all
  have a: "advance d c key = Some \<lparr>val = v, expiry = Some (x - int d)\<rparr>"
    using Cons.prems(1) dx by (simp add: advance_def)
  from dx have pos: "0 < x - int d" by simp
  from step_present[where c = "advance d c" and key = key, OF k l t key a pos] obtain w where
    run: "rateLimit options no_fault req (advance d c) = Inr w"
    and st: "status w = (if v < L then None else Some 429)"
    and pa: "passed w = (if v < L then 1 else 0)"
    and re: "headers w ''X-RateLimit-Remaining'' = Some (Num (Fin (max 0 (L - v - 1))))"
    and ca: "cache w key = Some \<lparr>val = (if v < L then v + 1 else v), expiry = Some (x - int d)\<rparr>"
    by blast
  have ih: "map (\<lambda>w. (status w, passed w, headers w ''X-RateLimit-Remaining''))
              (serve options req ds (cache w)) =
            map (\<lambda>i. (if (if v < L then v + 1 else v) + int i < L then None else Some 429,
                       if (if v < L then v + 1 else v) + int i < L then 1 else 0,
                       Some (Num (Fin (max 0 (L - (if v < L then v + 1 else v) - int i - 1))))))
              [0..<length ds]"
    by (rule Cons.IH[where c = "cache w", OF ca rest])
  have shift: "map (\<lambda>i. (if (if v < L then v + 1 else v) + int i < L then None else Some 429,
                       if (if v < L then v + 1 else v) + int i < L then (1::nat) else 0,
                       Some (Num (Fin (max 0 (L - (if v < L then v + 1 else v) - int i - 1))))))
              [0..<length ds] =
         map (\<lambda>i. (if v + int (Suc i) < L then None else Some 429,
                       if v + int (Suc i) < L then 1 else 0,
                       Some (Num (Fin (max 0 (L - v - int (Suc i) - 1))))))
              [0..<length ds]"
    by (rule map_cong) (auto simp: max_def)
  show ?case
    unfolding length_Cons map_upt_Suc
    by (simp add: run st pa re ih shift del: upt_Suc)
qed

text \<open>With a limit below one, every request finds the key missing and is rejected.\<close>

lemma serve_absent_no_quota:
  assumes k: "get_prop options ''createKey'' = KeyFn f"
    and l: "get_prop options ''requestLimit'' = Num (Fin L)"
    and t: "get_prop options ''timeWindow'' = Num (Fin T)"
    and key: "key = replaceID options (f req)"
    and T: "0 < T" and L: "\<not> 0 < L"
  shows "c key = None \<Longrightarrow>
     map (\<lambda>w. (status w, passed w, headers w ''X-RateLimit-Remaining'')) (serve options req ds c) =
     replicate (length ds) (Some 429, 0, Some (Num (Fin 0)))"
proof (induction ds arbitrary: c)
  case Nil
  then show ?case by simp
next
  case (Cons d ds)
  have a: "advance d c key = None"
    using Cons.prems by (simp add: advance_def)
  from step_absent[where c = "advance d c" and key = key, OF k l t key a T] L obtain w where
    run: "rateLimit options no_fault req (advance d c) = Inr w"
    and st: "status w = Some 429" and pa: "passed w = 0"
    and re: "headers w ''X-RateLimit-Remaining'' = Some (Num (Fin (max 0 (L - 1))))"
    and ca: "cache w key = None"
    by auto
  from L have z: "max 0 (L - 1) = 0" by simp
  show ?case
    by (simp add: run st pa re z Cons.IH[where c = "cache w", OF ca])
qed

text \<open>A window from its first request: the key is missing when the first request comes,
  and the others come before the window is over.\<close>

lemma serve_window:
  assumes k: "get_prop options ''createKey'' = KeyFn f"
    and l: "get_prop options ''requestLimit'' = Num (Fin L)"
    and t: "get_prop options ''timeWindow'' = Num (Fin T)"
    and key: "key = replaceID options (f req)"
    and T: "0 < T"
    and a: "advance d c key = None"
    and s: "int (sum_list ds) < T * 1000"
  shows "map (\<lambda>w. (status w, passed w, headers w ''X-RateLimit-Remaining''))
           (serve options req (d # ds) c) =
         map (\<lambda>i. (if int i < L then None else Some 429,
                    if int i < L then 1 else 0,
                    Some (Num (Fin (max 0 (L - int i - 1))))))
           [0..<Suc (length ds)]"
proof (cases "0 < L")
  case True
  from step_absent[where c = "advance d c" and key = key, OF k l t key a T] True obtain w where
    run: "rateLimit options no_fault req (advance d c) = Inr w"
    and st: "status w = None" and pa: "passed w = 1"
    and re: "headers w ''X-RateLimit-Remaining'' = Some (Num (Fin (max 0 (L - 1))))"
    and ca: "cache w key = Some \<lparr>val = 1, expiry = Some (T * 1000)\<rparr>"
    by auto
  have rest: "map (\<lambda>w. (status w, passed w, headers w ''X-RateLimit-Remaining''))
                (serve options req ds (cache w)) =
              map (\<lambda>i. (if int (Suc i) < L then None else Some 429,
                         if int (Suc i) < L then 1 else 0,
                         Some (Num (Fin (max 0 (L - int (Suc i) - 1))))))
                [0..<length ds]"
    unfolding serve_present[where c = "cache w" and key = key, OF k l t key ca s]
    by (rule map_cong) (auto simp: max_def)
  show ?thesis
    unfolding map_upt_Suc
    using True by (simp add: run st pa re rest del: upt_Suc)
next
  case False
  from step_absent[where c = "advance d c" and key = key, OF k l t key a T] False obtain w where
    run: "rateLimit options no_fault req (advance d c) = Inr w"
    and st: "status w = Some 429" and pa: "passed w = 0"
    and re: "headers w ''X-RateLimit-Remaining'' = Some (Num (Fin (max 0 (L - 1))))"
    and ca: "cache w key = None"
    by auto
  have rest: "map (\<lambda>w. (status w, passed w, headers w ''X-RateLimit-Remaining''))
                (serve options req ds (cache w)) =
              map (\<lambda>i. (if int (Suc i) < L then None else Some 429,
                         if int (Suc i) < L then 1 else 0,
                         Some (Num (Fin (max 0 (L - int (Suc i) - 1))))))
                [0..<length ds]"
    unfolding serve_absent_no_quota[where c = "cache w" and key = key, OF k l t key T False ca]
      map_replicate_trivial[symmetric]
    using False by (intro map_cong refl) (simp add: max_def)
  show ?thesis
    unfolding map_upt_Suc
    using False by (simp add: run st pa re rest del: upt_Suc)
qed

text \<open>The options of the test suite that matter here.\<close>

lemma construct_limit_2:
  "ExpressRedisRateLimit (Obj [(''requestLimit'', Num (Fin 2))]) =
     Inr (defaults [(''requestLimit'', Num (Fin 2))] defaultOptions)"
  by (simp add: ExpressRedisRateLimit_def validateOptions_def get_prop_def positive_number_def)

lemma construct_spreading:
  "ExpressRedisRateLimit
     (Obj [(''requestLimit'', Num (Fin 10)), (''enforceRequestSpreading'', Bool True)]) =
   Inr (defaults [(''requestLimit'', Num (Fin 10)), (''enforceRequestSpreading'', Bool True)]
          defaultOptions)"
  by (simp add: ExpressRedisRateLimit_def validateOptions_def get_prop_def positive_number_def)

lemma constructed_key_items:
  assumes "get_prop fs ''idMatcher'' = Undefined" and "get_prop fs ''idValue'' = Undefined"
  shows "replaceID (defaults fs defaultOptions)
           (default_createKey \<lparr>ip = ''10.0.0.1'', http_method = ''GET'', url = ''/items''\<rparr>)
         = ''RL/10.0.0.1/GET/items''"
  using assms
  by (simp add: replaceID_def get_prop_constructed default_props default_createKey_def
      mongo_id_exec_def lower_alnum_def)





text \<open>
  Claim C2 says that with \<^verbatim>\<open>enforceRequestSpreading\<close> construction turns the limit and the
  window into one request per sub-window, so that with a limit of 10 the second of two
  quick requests is rejected. \<^verbatim>\<open>ExpressRedisRateLimit\<close> never reads the option: the limit
  stays 10 and the window 60 seconds, and two requests 10 ms apart are both let through.
\<close>

theorem spreading_option_ignored:
  "ExpressRedisRateLimit
     (Obj [(''requestLimit'', Num (Fin 10)), (''enforceRequestSpreading'', Bool True)]) =
   Inr (defaults [(''requestLimit'', Num (Fin 10)), (''enforceRequestSpreading'', Bool True)]
          defaultOptions) \<and>
   get_prop (defaults [(''requestLimit'', Num (Fin 10)), (''enforceRequestSpreading'', Bool True)]
          defaultOptions) ''requestLimit'' = Num (Fin 10) \<and>
   get_prop (defaults [(''requestLimit'', Num (Fin 10)), (''enforceRequestSpreading'', Bool True)]
          defaultOptions) ''timeWindow'' = Num (Fin 60) \<and>
   map (\<lambda>w. (status w, passed w))
     (serve (defaults [(''requestLimit'', Num (Fin 10)), (''enforceRequestSpreading'', Bool True)]
          defaultOptions)
        \<lparr>ip = ''10.0.0.1'', http_method = ''GET'', url = ''/items''\<rparr> [0, 10] Map.empty) =
   [(None, 1), (None, 1)]"
proof -
  let ?opts = "defaults [(''requestLimit'', Num (Fin 10)), (''enforceRequestSpreading'', Bool True)]
          defaultOptions"
  have k: "get_prop ?opts ''createKey'' = KeyFn default_createKey"
    and l: "get_prop ?opts ''requestLimit'' = Num (Fin 10)"
    and t: "get_prop ?opts ''timeWindow'' = Num (Fin 60)"
    by (simp_all add: get_prop_constructed get_prop_Cons default_props) (simp_all add: get_prop_def)
  have key: "''RL/10.0.0.1/GET/items'' = replaceID ?opts
      (default_createKey \<lparr>ip = ''10.0.0.1'', http_method = ''GET'', url = ''/items''\<rparr>)"
    by (rule constructed_key_items[symmetric]) (simp_all add: get_prop_def)
  have a: "advance 0 Map.empty ''RL/10.0.0.1/GET/items'' = None"
    by (simp add: advance_def)
  have s: "int (sum_list [10]) < 60 * 1000" by simp
  have T: "(0::int) < 60" by simp
  have "map (\<lambda>w. (status w, passed w))
          (serve ?opts \<lparr>ip = ''10.0.0.1'', http_method = ''GET'', url = ''/items''\<rparr>
             [0, 10] Map.empty) =
        map (\<lambda>(a, b, c). (a, b)) (map (\<lambda>w. (status w, passed w, headers w ''X-RateLimit-Remaining''))
          (serve ?opts \<lparr>ip = ''10.0.0.1'', http_method = ''GET'', url = ''/items''\<rparr>
             [0, 10] Map.empty))"
    by (simp add: comp_def)
  also have "\<dots> = [(None, 1), (None, 1)]"
    unfolding serve_window[where c = Map.empty and key = "''RL/10.0.0.1/GET/items''",
        OF k l t key T a s]
    by (simp add: upt_rec)
  finally show ?thesis
    by (simp add: construct_spreading l t)
qed

section \<open>Properties of validation\<close>

lemma positive_numberD:
  assumes "positive_number v"
  shows "\<exists>n. v = Num (Fin n) \<and> 0 < n"
proof (cases v)
  case (Num x)
  with assms show ?thesis
    by (cases x) (simp_all add: positive_number_def)
qed (use assms in \<open>simp_all add: positive_number_def\<close>)

lemma validateOptions_numeric:
  assumes "validateOptions v = Inr fs" and "k = ''requestLimit'' \<or> k = ''timeWindow''"
    and "truthy (get_prop fs k)"
  shows "\<exists>n. get_prop fs k = Num (Fin n) \<and> 0 < n"
proof -
  from assms have "positive_number (get_prop fs k)"
    by (auto simp: validateOptions_def Let_def get_prop_def split: if_splits)
  then show ?thesis
    by (rule positive_numberD)
qed

text \<open>After construction a numeric option is a positive number or falsy.\<close>

lemma constructed_numeric:
  assumes c: "ExpressRedisRateLimit v = Inr options"
    and k: "k = ''requestLimit'' \<or> k = ''timeWindow''"
    and tr: "truthy (get_prop options k)"
  shows "\<exists>n. get_prop options k = Num (Fin n) \<and> 0 < n"
proof -
  from c obtain fs where fs: "validateOptions v = Inr fs"
    and o: "options = defaults fs defaultOptions"
    by (auto simp: ExpressRedisRateLimit_def split: sum.splits)
  show ?thesis
  proof (cases "get_prop fs k = Undefined")
    case True
    with k show ?thesis
      by (auto simp: o get_prop_constructed default_props)
  next
    case False
    with tr have "truthy (get_prop fs k)"
      by (simp add: o get_prop_constructed)
    from validateOptions_numeric[OF fs k this] False show ?thesis
      by (simp add: o get_prop_constructed)
  qed
qed

lemma validate_object:
  "validateOptions (Obj fs) = Inr fs' \<Longrightarrow> fs' = fs"
  by (auto simp: validateOptions_def Let_def split: if_splits)

lemma construct_matcher_only:
  "ExpressRedisRateLimit
      (Obj [(''idMatcher'', RegExp (Regex ''[a-z0-9]{24}$'' mongo_id_exec))]) =
   Inr (defaults [(''idMatcher'', RegExp (Regex ''[a-z0-9]{24}$'' mongo_id_exec))] defaultOptions)"
  by (simp add: ExpressRedisRateLimit_def validateOptions_def get_prop_def)

lemma construct_matcher_null_value:
  "ExpressRedisRateLimit
      (Obj [(''idMatcher'', RegExp (Regex ''[a-z0-9]{24}$'' mongo_id_exec)), (''idValue'', Null)]) =
   Inr (defaults [(''idMatcher'', RegExp (Regex ''[a-z0-9]{24}$'' mongo_id_exec)), (''idValue'', Null)]
          defaultOptions)"
  by (simp add: ExpressRedisRateLimit_def validateOptions_def get_prop_def)

text \<open>
  Claim C8 says that every options object with a non-positive limit or window, or with
  \<^verbatim>\<open>idMatcher\<close> set and no string \<^verbatim>\<open>idValue\<close>, makes construction raise. An options object
  with \<^verbatim>\<open>idMatcher\<close> alone is accepted, and so is one with \<^verbatim>\<open>idMatcher\<close> and an
  \<^verbatim>\<open>idValue\<close> of \<^verbatim>\<open>null\<close>, which stays \<^verbatim>\<open>null\<close> in the options of the middleware:
  \<^verbatim>\<open>validateOptions\<close> asks for a string only when \<^verbatim>\<open>idValue\<close> is truthy.
\<close>

theorem matcher_without_value_accepted:
  "get_prop [(''idMatcher'', RegExp (Regex ''[a-z0-9]{24}$'' mongo_id_exec))] ''idValue'' = Undefined \<and>
   \<not> isl (ExpressRedisRateLimit
      (Obj [(''idMatcher'', RegExp (Regex ''[a-z0-9]{24}$'' mongo_id_exec))])) \<and>
   \<not> isl (ExpressRedisRateLimit
      (Obj [(''idMatcher'', RegExp (Regex ''[a-z0-9]{24}$'' mongo_id_exec)), (''idValue'', Null)])) \<and>
   get_prop (projr (ExpressRedisRateLimit
      (Obj [(''idMatcher'', RegExp (Regex ''[a-z0-9]{24}$'' mongo_id_exec)), (''idValue'', Null)])))
      ''idValue'' = Null"
proof -
  have a: "get_prop [(''idMatcher'', RegExp (Regex ''[a-z0-9]{24}$'' mongo_id_exec))] ''idValue''
             = Undefined"
    by (simp add: get_prop_def)
  have b: "get_prop [(''idMatcher'', RegExp (Regex ''[a-z0-9]{24}$'' mongo_id_exec)), (''idValue'', Null)]
             ''idValue'' = Null"
    by (simp add: get_prop_def)
  show ?thesis
    unfolding construct_matcher_only construct_matcher_null_value
    by (simp add: a get_prop_constructed b)
qed

lemma negative_not_positive:
  "n < 0 \<Longrightarrow> truthy (Num (Fin n)) \<and> \<not> positive_number (Num (Fin n))"
  by (simp add: positive_number_def)

lemma bad_requestLimit:
  assumes "truthy (get_prop fs ''requestLimit'')"
    and "\<not> positive_number (get_prop fs ''requestLimit'')"
  shows "validateOptions (Obj fs) = Inl (Error ''Request limit option must be a positive number.'')"
  using assms by (simp add: validateOptions_def)

lemma bad_timeWindow:
  assumes "truthy (get_prop fs ''timeWindow'')"
    and "\<not> positive_number (get_prop fs ''timeWindow'')"
  shows "isl (validateOptions (Obj fs))"
  using assms by (simp add: validateOptions_def)

lemma bad_idValue:
  assumes "truthy (get_prop fs ''idMatcher'')" and "truthy (get_prop fs ''idValue'')"
    and "typeof (get_prop fs ''idValue'') \<noteq> ''string''"
  shows "isl (validateOptions (Obj fs))"
  using assms by (simp add: validateOptions_def)

lemma construct_raises:
  "isl (validateOptions v) \<Longrightarrow> isl (ExpressRedisRateLimit v)"
  by (cases "validateOptions v") (simp_all add: ExpressRedisRateLimit_def)

text \<open>
  Claim C8, amended. For every options object: a negative limit makes construction raise
  the request limit error; a negative window, and \<^verbatim>\<open>idMatcher\<close> set together with a truthy
  \<^verbatim>\<open>idValue\<close> that is not a string, make construction raise; an object that passes
  validation and has no \<^verbatim>\<open>idValue\<close> is accepted, with \<^verbatim>\<open>idValue\<close> \<^verbatim>\<open>:id\<close>. The error is the
  result of construction, so no middleware exists after it; and no request ever ends in
  a configuration error.
\<close>

theorem invalid_options_raise:
  "((\<exists>n. get_prop fs ''requestLimit'' = Num (Fin n) \<and> n < 0) \<longrightarrow>
      ExpressRedisRateLimit (Obj fs) = Inl (Error ''Request limit option must be a positive number.'')) \<and>
   ((\<exists>n. get_prop fs ''timeWindow'' = Num (Fin n) \<and> n < 0) \<longrightarrow>
      isl (ExpressRedisRateLimit (Obj fs))) \<and>
   (truthy (get_prop fs ''idMatcher'') \<and> truthy (get_prop fs ''idValue'')
      \<and> typeof (get_prop fs ''idValue'') \<noteq> ''string'' \<longrightarrow>
      isl (ExpressRedisRateLimit (Obj fs))) \<and>
   (\<not> isl (validateOptions (Obj fs)) \<and> get_prop fs ''idValue'' = Undefined \<longrightarrow>
      \<not> isl (ExpressRedisRateLimit (Obj fs)) \<and>
      get_prop (projr (ExpressRedisRateLimit (Obj fs))) ''idValue'' = Str '':id'') \<and>
   (\<forall>m. rateLimit options fl req c \<noteq> Inl (Error m))"
proof (intro conjI impI allI)
  assume "\<exists>n. get_prop fs ''requestLimit'' = Num (Fin n) \<and> n < 0"
  then obtain n where n: "get_prop fs ''requestLimit'' = Num (Fin n)" "n < 0"
    by blast
  from negative_not_positive[OF n(2)]
  have "validateOptions (Obj fs) = Inl (Error ''Request limit option must be a positive number.'')"
    by (intro bad_requestLimit) (simp_all add: n(1))
  then show "ExpressRedisRateLimit (Obj fs) =
      Inl (Error ''Request limit option must be a positive number.'')"
    by (simp add: ExpressRedisRateLimit_def)
next
  assume "\<exists>n. get_prop fs ''timeWindow'' = Num (Fin n) \<and> n < 0"
  then obtain n where n: "get_prop fs ''timeWindow'' = Num (Fin n)" "n < 0"
    by blast
  from negative_not_positive[OF n(2)] have "isl (validateOptions (Obj fs))"
    by (intro bad_timeWindow) (simp_all add: n(1))
  then show "isl (ExpressRedisRateLimit (Obj fs))"
    by (rule construct_raises)
next
  assume "truthy (get_prop fs ''idMatcher'') \<and> truthy (get_prop fs ''idValue'')
      \<and> typeof (get_prop fs ''idValue'') \<noteq> ''string''"
  then have "isl (validateOptions (Obj fs))"
    by (intro bad_idValue) simp_all
  then show "isl (ExpressRedisRateLimit (Obj fs))"
    by (rule construct_raises)
next
  assume a: "\<not> isl (validateOptions (Obj fs)) \<and> get_prop fs ''idValue'' = Undefined"
  then obtain fs' where f: "validateOptions (Obj fs) = Inr fs'"
    by (cases "validateOptions (Obj fs)") auto
  from validate_object[OF f] f have v: "validateOptions (Obj fs) = Inr fs"
    by simp
  then have e: "ExpressRedisRateLimit (Obj fs) = Inr (defaults fs defaultOptions)"
    by (simp add: ExpressRedisRateLimit_def)
  from e show "\<not> isl (ExpressRedisRateLimit (Obj fs))"
    by simp
  from a show "get_prop (projr (ExpressRedisRateLimit (Obj fs))) ''idValue'' = Str '':id''"
    by (simp add: e get_prop_constructed default_props)
next
  fix m
  show "rateLimit options fl req c \<noteq> Inl (Error m)"
    by (cases "get_prop options ''createKey''") (simp_all add: rateLimit_def Let_def)
qed

theorem invalid_options_raise_witness:
  "ExpressRedisRateLimit (Obj [(''requestLimit'', Num (Fin (- 5)))]) =
     Inl (Error ''Request limit option must be a positive number.'') \<and>
   isl (ExpressRedisRateLimit (Obj [(''timeWindow'', Num (Fin (- 1)))])) \<and>
   isl (ExpressRedisRateLimit
     (Obj [(''idMatcher'', RegExp (Regex ''[a-z0-9]{24}$'' mongo_id_exec)),
           (''idValue'', Num (Fin 7))])) \<and>
   get_prop (projr (ExpressRedisRateLimit
     (Obj [(''idMatcher'', RegExp (Regex ''[a-z0-9]{24}$'' mongo_id_exec))]))) ''idValue''
     = Str '':id''"
proof -
  have v: "\<not> isl (validateOptions
     (Obj [(''idMatcher'', RegExp (Regex ''[a-z0-9]{24}$'' mongo_id_exec))]))"
    by (simp add: validateOptions_def get_prop_def)
  from invalid_options_raise[where fs = "[(''requestLimit'', Num (Fin (- 5)))]"]
    invalid_options_raise[where fs = "[(''timeWindow'', Num (Fin (- 1)))]"]
    invalid_options_raise[where fs = "[(''idMatcher'', RegExp (Regex ''[a-z0-9]{24}$'' mongo_id_exec)),
           (''idValue'', Num (Fin 7))]"]
    invalid_options_raise[where fs = "[(''idMatcher'', RegExp (Regex ''[a-z0-9]{24}$'' mongo_id_exec))]"]
    v
  show ?thesis
    by (simp add: get_prop_def)
qed

section \<open>Properties of key derivation\<close>

text \<open>A replacement text without a dollar sign stands for itself.\<close>

lemma expand_plain: "CHR ''$'' \<notin> set v \<Longrightarrow> expand pre m post v = v"
  by (induction pre m post v rule: expand.induct) auto

lemma splice_plain:
  "CHR ''$'' \<notin> set v \<Longrightarrow> splice s i n v = take i s @ v @ drop (i + n) s"
  by (simp add: splice_def expand_plain)

lemma replaceID_regex:
  assumes "get_prop options ''idMatcher'' = RegExp r"
    and "get_prop options ''idValue'' = Str v" and "v \<noteq> []" and "CHR ''$'' \<notin> set v"
  shows "replaceID options key =
     (case exec r key of None \<Rightarrow> key | Some (i, n) \<Rightarrow> take i key @ v @ drop (i + n) key)"
  using assms by (simp add: replaceID_def splice_plain split: option.splits)

lemma mongo_id_item_1:
  "mongo_id_exec ''RL/10.0.0.1/GET/items/0123456789abcdef01234567'' = Some (22, 24)"
  by (simp add: mongo_id_exec_def lower_alnum_def)

lemma mongo_id_item_2:
  "mongo_id_exec ''RL/10.0.0.1/GET/items/89abcdef0123456701234567'' = Some (22, 24)"
  by (simp add: mongo_id_exec_def lower_alnum_def)

lemma construct_empty_value:
  "ExpressRedisRateLimit
      (Obj [(''idMatcher'', RegExp (Regex ''[a-z0-9]{24}$'' mongo_id_exec)), (''idValue'', Str [])]) =
   Inr (defaults [(''idMatcher'', RegExp (Regex ''[a-z0-9]{24}$'' mongo_id_exec)), (''idValue'', Str [])]
          defaultOptions)"
  by (simp add: ExpressRedisRateLimit_def validateOptions_def get_prop_def)

lemma empty_value_props:
  "get_prop (defaults [(''idMatcher'', RegExp (Regex ''[a-z0-9]{24}$'' mongo_id_exec)),
                       (''idValue'', Str [])] defaultOptions) ''idValue'' = Str []"
  "get_prop (defaults [(''idMatcher'', RegExp (Regex ''[a-z0-9]{24}$'' mongo_id_exec)),
                       (''idValue'', Str [])] defaultOptions) ''idMatcher''
     = RegExp (Regex ''[a-z0-9]{24}$'' mongo_id_exec)"
  by (simp_all add: get_prop_constructed) (simp_all add: get_prop_def)

text \<open>
  Claim C9 says that with \<^verbatim>\<open>idMatcher\<close> configured the first region it matches is replaced
  with \<^verbatim>\<open>idValue\<close>, so that raw keys which differ only there derive to the same key. With
  the default matcher and the empty string as \<^verbatim>\<open>idValue\<close> (accepted by construction),
  \<^verbatim>\<open>replaceID\<close> takes the branch for a falsy \<^verbatim>\<open>idValue\<close>: both keys come back as they are,
  the identifiers still in them, and they differ.
\<close>

theorem empty_value_no_substitution:
  "ExpressRedisRateLimit
      (Obj [(''idMatcher'', RegExp (Regex ''[a-z0-9]{24}$'' mongo_id_exec)), (''idValue'', Str [])]) =
   Inr (defaults [(''idMatcher'', RegExp (Regex ''[a-z0-9]{24}$'' mongo_id_exec)), (''idValue'', Str [])]
          defaultOptions) \<and>
   exec (Regex ''[a-z0-9]{24}$'' mongo_id_exec)
     ''RL/10.0.0.1/GET/items/0123456789abcdef01234567'' = Some (22, 24) \<and>
   exec (Regex ''[a-z0-9]{24}$'' mongo_id_exec)
     ''RL/10.0.0.1/GET/items/89abcdef0123456701234567'' = Some (22, 24) \<and>
   replaceID (defaults [(''idMatcher'', RegExp (Regex ''[a-z0-9]{24}$'' mongo_id_exec)),
                        (''idValue'', Str [])] defaultOptions)
     ''RL/10.0.0.1/GET/items/0123456789abcdef01234567''
     = ''RL/10.0.0.1/GET/items/0123456789abcdef01234567'' \<and>
   replaceID (defaults [(''idMatcher'', RegExp (Regex ''[a-z0-9]{24}$'' mongo_id_exec)),
                        (''idValue'', Str [])] defaultOptions)
     ''RL/10.0.0.1/GET/items/89abcdef0123456701234567''
     = ''RL/10.0.0.1/GET/items/89abcdef0123456701234567'' \<and>
   replaceID (defaults [(''idMatcher'', RegExp (Regex ''[a-z0-9]{24}$'' mongo_id_exec)),
                        (''idValue'', Str [])] defaultOptions)
     ''RL/10.0.0.1/GET/items/0123456789abcdef01234567''
   \<noteq>
   replaceID (defaults [(''idMatcher'', RegExp (Regex ''[a-z0-9]{24}$'' mongo_id_exec)),
                        (''idValue'', Str [])] defaultOptions)
     ''RL/10.0.0.1/GET/items/89abcdef0123456701234567''"
  by (simp add: construct_empty_value mongo_id_item_1 mongo_id_item_2 replaceID_def
      empty_value_props)

text \<open>
  Claim C9, amended. \<^verbatim>\<open>replaceID\<close> is a function of the options and the raw key, so equal
  raw keys derive to equal keys. When \<^verbatim>\<open>idMatcher\<close> or \<^verbatim>\<open>idValue\<close> is falsy the raw key
  comes back unchanged. When \<^verbatim>\<open>idMatcher\<close> is a regular expression and \<^verbatim>\<open>idValue\<close> a
  non-empty string without \<^verbatim>\<open>$\<close>: a key with no match comes back unchanged; otherwise
  the leftmost match, and only it, is replaced with \<^verbatim>\<open>idValue\<close>; and two raw keys that
  differ only in the region matched derive to the same key.
\<close>

theorem replaceID_substitutes:
  "(\<not> truthy (get_prop options ''idMatcher'') \<or> \<not> truthy (get_prop options ''idValue'') \<longrightarrow>
      replaceID options key = key) \<and>
   (get_prop options ''idMatcher'' = RegExp r \<and> get_prop options ''idValue'' = Str v \<and>
    v \<noteq> [] \<and> CHR ''$'' \<notin> set v \<longrightarrow>
      (exec r key = None \<longrightarrow> replaceID options key = key) \<and>
      (\<forall>i n. exec r key = Some (i, n) \<longrightarrow>
         replaceID options key = take i key @ v @ drop (i + n) key) \<and>
      (exec r (p @ m1 @ s) = Some (length p, length m1) \<and>
       exec r (p @ m2 @ s) = Some (length p, length m2) \<longrightarrow>
         replaceID options (p @ m1 @ s) = p @ v @ s \<and>
         replaceID options (p @ m2 @ s) = p @ v @ s))"
proof (intro conjI impI allI)
  assume "\<not> truthy (get_prop options ''idMatcher'') \<or> \<not> truthy (get_prop options ''idValue'')"
  then show "replaceID options key = key"
    by (auto simp: replaceID_def)
next
  assume a: "get_prop options ''idMatcher'' = RegExp r \<and> get_prop options ''idValue'' = Str v \<and>
    v \<noteq> [] \<and> CHR ''$'' \<notin> set v"
  then have eq: "\<And>k. replaceID options k =
     (case exec r k of None \<Rightarrow> k | Some (i, n) \<Rightarrow> take i k @ v @ drop (i + n) k)"
    by (intro replaceID_regex) simp_all
  {
    assume "exec r key = None"
    then show "replaceID options key = key"
      by (simp add: eq)
  next
    fix i n assume "exec r key = Some (i, n)"
    then show "replaceID options key = take i key @ v @ drop (i + n) key"
      by (simp add: eq)
  next
    assume b: "exec r (p @ m1 @ s) = Some (length p, length m1) \<and>
       exec r (p @ m2 @ s) = Some (length p, length m2)"
    then show "replaceID options (p @ m1 @ s) = p @ v @ s"
      by (simp add: eq)
    from b show "replaceID options (p @ m2 @ s) = p @ v @ s"
      by (simp add: eq)
  }
qed

theorem replaceID_substitutes_witness:
  "replaceID defaultOptions ''RL/10.0.0.1/GET/items/0123456789abcdef01234567''
     = ''RL/10.0.0.1/GET/items/:id'' \<and>
   replaceID defaultOptions ''RL/10.0.0.1/GET/items/89abcdef0123456701234567''
     = ''RL/10.0.0.1/GET/items/:id'' \<and>
   replaceID [(''idMatcher'', Bool False), (''idValue'', Str '':id'')]
       ''RL/10.0.0.1/GET/items/0123456789abcdef01234567''
     = ''RL/10.0.0.1/GET/items/0123456789abcdef01234567''"
proof -
  have m: "get_prop defaultOptions ''idMatcher'' = RegExp (Regex ''[a-z0-9]{24}$'' mongo_id_exec) \<and>
      get_prop defaultOptions ''idValue'' = Str '':id'' \<and> '':id'' \<noteq> [] \<and>
      CHR ''$'' \<notin> set '':id''"
    by (simp add: default_props)
  have e: "exec (Regex ''[a-z0-9]{24}$'' mongo_id_exec)
        (''RL/10.0.0.1/GET/items/'' @ ''0123456789abcdef01234567'' @ [])
        = Some (length ''RL/10.0.0.1/GET/items/'', length ''0123456789abcdef01234567'') \<and>
      exec (Regex ''[a-z0-9]{24}$'' mongo_id_exec)
        (''RL/10.0.0.1/GET/items/'' @ ''89abcdef0123456701234567'' @ [])
        = Some (length ''RL/10.0.0.1/GET/items/'', length ''89abcdef0123456701234567'')"
    using mongo_id_item_1 mongo_id_item_2 by simp
  have d: "\<not> truthy (get_prop [(''idMatcher'', Bool False), (''idValue'', Str '':id'')] ''idMatcher'')"
    by (simp add: get_prop_def)
  from replaceID_substitutes[where options = defaultOptions
      and r = "Regex ''[a-z0-9]{24}$'' mongo_id_exec" and v = "'':id''"
      and p = "''RL/10.0.0.1/GET/items/''" and ?m1.0 = "''0123456789abcdef01234567''"
      and ?m2.0 = "''89abcdef0123456701234567''" and s = "[]"] m e
  have a: "replaceID defaultOptions (''RL/10.0.0.1/GET/items/'' @ ''0123456789abcdef01234567'' @ [])
             = ''RL/10.0.0.1/GET/items/'' @ '':id'' @ [] \<and>
           replaceID defaultOptions (''RL/10.0.0.1/GET/items/'' @ ''89abcdef0123456701234567'' @ [])
             = ''RL/10.0.0.1/GET/items/'' @ '':id'' @ []"
    by blast
  from replaceID_substitutes[where options = "[(''idMatcher'', Bool False), (''idValue'', Str '':id'')]"
      and key = "''RL/10.0.0.1/GET/items/0123456789abcdef01234567''"] d
  have b: "replaceID [(''idMatcher'', Bool False), (''idValue'', Str '':id'')]
       ''RL/10.0.0.1/GET/items/0123456789abcdef01234567''
     = ''RL/10.0.0.1/GET/items/0123456789abcdef01234567''"
    by blast
  from a b show ?thesis
    by simp
qed

end
